theory Spec2Isabelle
  imports Main "HOL-Library.Word" "HOL-Library.Signed_Division" "HOL-Library.Product_Lexorder"
    "HOL-Library.Multiset"
begin

section \<open>The priority queue shared by both programs\<close>

text \<open>
  Both programs keep their pending items in a
  \<^verbatim>\<open>std::priority_queue<T, std::vector<T>, ComparePriority>\<close>. The container is the
  C++ standard library's; it is modelled by its contract. The contents are a list (the
  underlying vector, whose arrangement carries no meaning), \<^verbatim>\<open>push\<close> adds an element,
  \<^verbatim>\<open>top\<close> returns an element that the comparator puts before no other element of the
  queue, and \<^verbatim>\<open>pop\<close> removes that element.
\<close>

definition pq_push :: "'a \<Rightarrow> 'a list \<Rightarrow> 'a list" where
  "pq_push x q = q @ [x]"

text \<open>
  The contract of \<^verbatim>\<open>top\<close>: \<open>x\<close> is in the queue and \<open>cmp x y\<close> ("x is ordered before
  y") holds for no \<open>y\<close> of the queue. Among elements that the comparator does not
  distinguish, the standard leaves the choice open.
\<close>

definition is_top :: "('a \<Rightarrow> 'a \<Rightarrow> bool) \<Rightarrow> 'a list \<Rightarrow> 'a \<Rightarrow> bool" where
  "is_top cmp q x \<longleftrightarrow> x \<in> set q \<and> (\<forall>y \<in> set q. \<not> cmp x y)"

text \<open>\<open>pq_pops cmp q out\<close>: \<open>out\<close> is a sequence of results that successive
  \<^verbatim>\<open>top(); pop();\<close> pairs may return from the queue \<open>q\<close>, each obeying the contract.\<close>

fun pq_pops :: "('a \<Rightarrow> 'a \<Rightarrow> bool) \<Rightarrow> 'a list \<Rightarrow> 'a list \<Rightarrow> bool" where
  "pq_pops cmp q [] = True"
| "pq_pops cmp q (x # out) = (is_top cmp q x \<and> pq_pops cmp (remove1 x q) out)"

text \<open>
  One executable resolution of the contract, used by the worker loops below: scan the
  vector and keep the element found so far unless the comparator orders it before the
  next one. \<open>None\<close> stands for the empty queue, where the programs do not call
  \<^verbatim>\<open>top\<close> (both test \<^verbatim>\<open>empty()\<close> first).
\<close>

fun pq_top :: "('a \<Rightarrow> 'a \<Rightarrow> bool) \<Rightarrow> 'a list \<Rightarrow> 'a option" where
  "pq_top cmp [] = None"
| "pq_top cmp (x # xs) = Some (fold (\<lambda>y best. if cmp best y then y else best) xs x)"

definition pq_pop :: "('a \<Rightarrow> 'a \<Rightarrow> bool) \<Rightarrow> 'a list \<Rightarrow> 'a list" where
  "pq_pop cmp q = (case pq_top cmp q of None \<Rightarrow> q | Some x \<Rightarrow> remove1 x q)"

text \<open>The results of at most \<open>n\<close> successive \<^verbatim>\<open>top(); pop();\<close> pairs, stopping at the
  empty queue.\<close>

fun pq_pop_n :: "('a \<Rightarrow> 'a \<Rightarrow> bool) \<Rightarrow> nat \<Rightarrow> 'a list \<Rightarrow> 'a list" where
  "pq_pop_n cmp 0 q = []"
| "pq_pop_n cmp (Suc n) q =
     (case pq_top cmp q of None \<Rightarrow> [] | Some x \<Rightarrow> x # pq_pop_n cmp n (pq_pop cmp q))"

text \<open>A sequence of pushes into the empty queue.\<close>

definition pq_pushes :: "'a list \<Rightarrow> 'a list" where
  "pq_pushes items = foldl (\<lambda>q x. pq_push x q) [] items"

text \<open>
  The outcome of a thread's call that may wait on the counting semaphore: either the call
  returns, or the thread is suspended inside \<^verbatim>\<open>acquire()\<close> with no unit available. The
  model follows one thread; a suspended thread is resumed only by another thread's
  \<^verbatim>\<open>release()\<close>, which is outside it.
\<close>

datatype 'a thread = Returns 'a | Blocks 'a

fun state_of :: "'a thread \<Rightarrow> 'a" where
  "state_of (Returns s) = s"
| "state_of (Blocks s) = s"

text \<open>The outcome of one pass through the body of a \<^verbatim>\<open>while (true)\<close> loop.\<close>

datatype 'a loop = Break 'a | Continue 'a | Stuck 'a

fun loop_state :: "'a loop \<Rightarrow> 'a" where
  "loop_state (Break s) = s"
| "loop_state (Continue s) = s"
| "loop_state (Stuck s) = s"

text \<open>The first \<open>n\<close> passes of a \<^verbatim>\<open>while (true)\<close> loop with the given body: the loop is
  still running after them (\<open>Continue\<close>), or it has left by \<^verbatim>\<open>break\<close>, or the thread is
  suspended.\<close>

fun passes :: "('a \<Rightarrow> 'a loop) \<Rightarrow> nat \<Rightarrow> 'a \<Rightarrow> 'a loop" where
  "passes body 0 s = Continue s"
| "passes body (Suc n) s =
     (case body s of
        Continue s' \<Rightarrow> passes body n s'
      | Break s' \<Rightarrow> Break s'
      | Stuck s' \<Rightarrow> Stuck s')"


section \<open>The quantum simulator scheduler\<close>

text \<open>
  \<^verbatim>\<open>struct QuantumTask\<close>. The fields are C++ \<^verbatim>\<open>int\<close>s; they are modelled as integers,
  which is exact wherever no arithmetic overflows. The only arithmetic on them is the
  halving in \<open>split_task\<close>, which cannot overflow, and the computation of the new
  identifier, whose overflow is undefined behaviour in C++.
\<close>

record QuantumTask =
  id_task :: int
  priority :: int
  is_critical :: bool
  duration :: int
  required_qubits :: int
  is_split :: bool

text \<open>\<^verbatim>\<open>ComparePriority::operator()\<close> on tasks.\<close>

definition ComparePriority :: "QuantumTask \<Rightarrow> QuantumTask \<Rightarrow> bool" where
  "ComparePriority t1 t2 =
     (if QuantumTask.priority t1 \<noteq> QuantumTask.priority t2
      then QuantumTask.priority t1 > QuantumTask.priority t2
      else if QuantumTask.is_critical t1 \<noteq> QuantumTask.is_critical t2
      then \<not> QuantumTask.is_critical t1
      else duration t1 > duration t2)"

text \<open>
  What the program prints and the calls it makes on the semaphore and the clock, in
  order. \<open>Failed\<close> is the line "Task .. failed on processor .. (processor broken)".
\<close>

datatype event =
    Added QuantumTask
  | Failed int int
  | Acquire
  | Started int QuantumTask
  | Sleep int
  | Release
  | Completed int int
  | Splitting int int
  | Processor_failed int

text \<open>
  The globals of the program: the queue, the semaphore \<^verbatim>\<open>quantum_processors\<close> (its
  counter), the atomic \<^verbatim>\<open>failed_processor\<close>, and the state of \<^verbatim>\<open>rand()\<close>, given as the
  sequence of values it returns and the number of calls made so far.
\<close>

record sim =
  task_queue :: "QuantumTask list"
  quantum_processors :: nat
  failed_processor :: int
  rand_seq :: "nat \<Rightarrow> nat"
  rand_calls :: nat
  trace :: "event list"

definition say :: "event \<Rightarrow> sim \<Rightarrow> sim" where
  "say e s = s\<lparr>trace := trace s @ [e]\<rparr>"

definition rand :: "sim \<Rightarrow> nat \<times> sim" where
  "rand s = (rand_seq s (rand_calls s), s\<lparr>rand_calls := Suc (rand_calls s)\<rparr>)"

definition process_quantum_task :: "QuantumTask \<Rightarrow> int \<Rightarrow> sim \<Rightarrow> sim thread" where
  "process_quantum_task task processor_id s =
     (if processor_id = failed_processor s
      then Returns (say (Failed (id_task task) processor_id) s)
      else
        let s1 = say Acquire s in
        if quantum_processors s1 = 0 then Blocks s1
        else
          let s2 = s1\<lparr>quantum_processors := quantum_processors s1 - 1\<rparr>;
              s3 = say (Started processor_id task) s2;
              s4 = say (Sleep (duration task)) s3;
              s5 = say Release (s4\<lparr>quantum_processors := quantum_processors s4 + 1\<rparr>)
          in Returns (say (Completed processor_id (id_task task)) s5))"

text \<open>\<open>split_task\<close>; \<open>r\<close> is the value its call of \<^verbatim>\<open>rand()\<close> returns. The division of
  C++ truncates towards zero.\<close>

definition split_task :: "nat \<Rightarrow> QuantumTask \<Rightarrow> QuantumTask" where
  "split_task r original_task =
     original_task\<lparr>
       id_task := id_task original_task * 100 + int (r mod 100),
       duration := duration original_task sdiv 2,
       required_qubits := required_qubits original_task sdiv 2,
       is_split := True\<rparr>"

definition add_quantum_task :: "int \<Rightarrow> int \<Rightarrow> bool \<Rightarrow> int \<Rightarrow> int \<Rightarrow> sim \<Rightarrow> sim" where
  "add_quantum_task i p c d qubits s =
     (let task = \<lparr>id_task = i, priority = p, is_critical = c, duration = d,
                  required_qubits = qubits, is_split = False\<rparr>
      in say (Added task) (s\<lparr>task_queue := pq_push task (task_queue s)\<rparr>))"

text \<open>\<open>simulate_processor_failure\<close>, which sleeps for two seconds first.\<close>

definition simulate_processor_failure :: "int \<Rightarrow> sim \<Rightarrow> sim" where
  "simulate_processor_failure processor_id s =
     (let s1 = say (Sleep 2000) s;
          s2 = s1\<lparr>failed_processor := processor_id\<rparr>
      in say (Processor_failed processor_id) s2)"

text \<open>One pass through the body of the loop of \<open>process_quantum_tasks\<close>.\<close>

definition process_quantum_tasks_body :: "int \<Rightarrow> sim \<Rightarrow> sim loop" where
  "process_quantum_tasks_body processor_id s =
     (case pq_top ComparePriority (task_queue s) of
        None \<Rightarrow> Break s
      | Some task \<Rightarrow>
          let s1 = s\<lparr>task_queue := pq_pop ComparePriority (task_queue s)\<rparr> in
          if required_qubits task > 5 \<and> \<not> is_split task
          then
            let s2 = say (Splitting processor_id (id_task task)) s1;
                (r1, s3) = rand s2;
                sub_task1 = split_task r1 task;
                (r2, s4) = rand s3;
                sub_task2 = split_task r2 task
            in Continue (s4\<lparr>task_queue := pq_push sub_task2 (pq_push sub_task1 (task_queue s4))\<rparr>)
          else
            (case process_quantum_task task processor_id s1 of
               Returns s' \<Rightarrow> Continue s'
             | Blocks s' \<Rightarrow> Stuck s'))"

text \<open>The measure of the loop: a task that will still be split counts three, any
  other task counts one.\<close>

definition pending :: "QuantumTask list \<Rightarrow> nat" where
  "pending q = sum_list (map (\<lambda>t. if required_qubits t > 5 \<and> \<not> is_split t then 3 else 1) q)"

lemma fold_keep_in_set:
  "fold (\<lambda>y best. if cmp best y then y else best) xs x \<in> set (x # xs)"
  by (induction xs arbitrary: x) auto

lemma pq_top_in_set: "pq_top cmp q = Some x \<Longrightarrow> x \<in> set q"
  using fold_keep_in_set [of cmp] by (cases q) auto

lemma pending_remove1:
  "t \<in> set q \<Longrightarrow>
   pending (remove1 t q) + (if required_qubits t > 5 \<and> \<not> is_split t then 3 else 1) = pending q"
  by (induction q) (auto simp: pending_def)

lemma pending_push:
  "pending (pq_push t q) = pending q + (if required_qubits t > 5 \<and> \<not> is_split t then 3 else 1)"
  by (simp add: pending_def pq_push_def)

lemma process_quantum_task_queue:
  "task_queue (state_of (process_quantum_task task p s)) = task_queue s"
  by (simp add: process_quantum_task_def say_def Let_def)

lemma body_decreases:
  assumes "process_quantum_tasks_body p s = Continue s'"
  shows "pending (task_queue s') < pending (task_queue s)"
proof (cases "pq_top ComparePriority (task_queue s)")
  case None
  with assms show ?thesis by (simp add: process_quantum_tasks_body_def)
next
  case (Some task)
  then have mem: "task \<in> set (task_queue s)" by (rule pq_top_in_set)
  have pop: "pq_pop ComparePriority (task_queue s) = remove1 task (task_queue s)"
    by (simp add: pq_pop_def Some)
  show ?thesis
  proof (cases "required_qubits task > 5 \<and> \<not> is_split task")
    case True
    with assms Some pop
    have "task_queue s' =
            pq_push (split_task (rand_seq s (Suc (rand_calls s))) task)
              (pq_push (split_task (rand_seq s (rand_calls s)) task)
                 (remove1 task (task_queue s)))"
      by (auto simp: process_quantum_tasks_body_def Let_def rand_def say_def)
    then show ?thesis
      using pending_remove1 [OF mem] True
      by (simp add: pending_push split_task_def)
  next
    case False
    with assms Some pop
    have "task_queue s' = remove1 task (task_queue s)"
      using process_quantum_task_queue [of task p "s\<lparr>task_queue := remove1 task (task_queue s)\<rparr>"]
      by (auto simp: process_quantum_tasks_body_def Let_def split: thread.splits)
    then show ?thesis
      using pending_remove1 [OF mem] False by auto
  qed
qed

text \<open>\<open>process_quantum_tasks\<close>: the loop runs until the queue is found empty.\<close>

function process_quantum_tasks :: "int \<Rightarrow> sim \<Rightarrow> sim thread" where
  "process_quantum_tasks processor_id s =
     (case process_quantum_tasks_body processor_id s of
        Break s' \<Rightarrow> Returns s'
      | Continue s' \<Rightarrow> process_quantum_tasks processor_id s'
      | Stuck s' \<Rightarrow> Blocks s')"
  by pat_completeness auto
termination
  by (relation "measure (\<lambda>(p, s). pending (task_queue s))") (auto dest: body_decreases)

section \<open>The monitoring server\<close>

text \<open>\<^verbatim>\<open>struct MonitoringData\<close>; \<^verbatim>\<open>size\<close> is a \<^verbatim>\<open>size_t\<close>, a natural number.\<close>

record MonitoringData =
  station_id :: int
  priority :: int
  is_critical :: bool
  payload :: string
  size_bytes :: nat

text \<open>\<^verbatim>\<open>ComparePriority::operator()\<close> on monitoring data.\<close>

definition ComparePriority_data :: "MonitoringData \<Rightarrow> MonitoringData \<Rightarrow> bool" where
  "ComparePriority_data d1 d2 =
     (if MonitoringData.priority d1 \<noteq> MonitoringData.priority d2
      then MonitoringData.priority d1 > MonitoringData.priority d2
      else if MonitoringData.is_critical d1 \<noteq> MonitoringData.is_critical d2
      then \<not> MonitoringData.is_critical d1
      else size_bytes d1 > size_bytes d2)"

text \<open>The lines the server program prints, and its sleeps (in milliseconds).\<close>

datatype notice =
    Handling MonitoringData
  | Handled int
  | Dropped_overload int
  | Dropped_emergency int
  | Sent MonitoringData
  | Handler_added nat int
  | Handler_removed nat int
  | Emergency_on
  | Emergency_off
  | Sleep_ms nat

text \<open>
  The globals of the server program, with the function-local static
  \<^verbatim>\<open>emergency_counter\<close> of \<open>load_monitor\<close>. \<^verbatim>\<open>server_capacity\<close> is the counter of the
  semaphore. \<^verbatim>\<open>emergency_counter\<close> is a \<^verbatim>\<open>std::atomic<int>\<close> that is only ever
  incremented, so it is a 32-bit word: atomic increments wrap around.
  \<^verbatim>\<open>active_handlers\<close> is changed only under the guards \<open>< 10\<close> and \<open>> 5\<close>, where it
  cannot overflow.
\<close>

record server =
  data_queue :: "MonitoringData list"
  server_capacity :: nat
  current_load :: nat
  emergency_mode :: bool
  active_handlers :: int
  emergency_counter :: "32 word"
  console :: "notice list"

definition emit :: "notice \<Rightarrow> server \<Rightarrow> server" where
  "emit e s = s\<lparr>console := console s @ [e]\<rparr>"

definition try_acquire :: "server \<Rightarrow> bool \<times> server" where
  "try_acquire s =
     (if server_capacity s > 0 then (True, s\<lparr>server_capacity := server_capacity s - 1\<rparr>)
      else (False, s))"

definition release :: "server \<Rightarrow> server" where
  "release s = s\<lparr>server_capacity := server_capacity s + 1\<rparr>"

definition acquire :: "server \<Rightarrow> server thread" where
  "acquire s =
     (if server_capacity s = 0 then Blocks s
      else Returns (s\<lparr>server_capacity := server_capacity s - 1\<rparr>))"

definition process_data :: "MonitoringData \<Rightarrow> server \<Rightarrow> server thread" where
  "process_data data s =
     (case acquire s of
        Blocks s' \<Rightarrow> Blocks s'
      | Returns s1 \<Rightarrow>
          let s2 = emit (Handling data) s1;
              s3 = emit (Sleep_ms (size_bytes data div 100)) s2;
              s4 = release s3
          in Returns (emit (Handled (station_id data)) s4))"

text \<open>
  One pass through the loop of \<open>monitoring_station\<close>, after the random generators have
  produced the item \<open>data\<close> and the value \<open>gap\<close> of the closing sleep.
\<close>

definition monitoring_station_body :: "MonitoringData \<Rightarrow> nat \<Rightarrow> server \<Rightarrow> server" where
  "monitoring_station_body data gap s =
     (if current_load s > 80 \<and> \<not> MonitoringData.is_critical data \<and> MonitoringData.priority data > 3
      then emit (Sleep_ms 500) (emit (Dropped_overload (station_id data)) s)
      else if emergency_mode s \<and> MonitoringData.priority data > 2 \<and> \<not> MonitoringData.is_critical data
      then emit (Sleep_ms 200) (emit (Dropped_emergency (station_id data)) s)
      else
        let s1 = s\<lparr>data_queue := pq_push data (data_queue s)\<rparr>;
            s2 = emit (Sent data) s1
        in emit (Sleep_ms (300 + gap)) s2)"

text \<open>One pass through the loop of \<open>data_handler\<close>.\<close>

definition data_handler_body :: "server \<Rightarrow> server loop" where
  "data_handler_body s =
     (case pq_top ComparePriority_data (data_queue s) of
        Some data \<Rightarrow>
          (case process_data data (s\<lparr>data_queue := pq_pop ComparePriority_data (data_queue s)\<rparr>) of
             Returns s' \<Rightarrow> Continue s'
           | Blocks s' \<Rightarrow> Stuck s')
      | None \<Rightarrow> Continue (emit (Sleep_ms 100) s))"

text \<open>
  \<open>data_handler\<close>: a \<^verbatim>\<open>while (true)\<close> loop with no \<^verbatim>\<open>break\<close> and no \<^verbatim>\<open>return\<close>. The
  value \<open>None\<close> is the call that goes round the loop for ever; \<open>Some (Blocks s)\<close> is the
  call whose thread is suspended in \<^verbatim>\<open>acquire()\<close> in the state \<open>s\<close>.
\<close>

partial_function (option) data_handler :: "server \<Rightarrow> server thread option" where
  "data_handler s =
     (case data_handler_body s of
        Continue s' \<Rightarrow> data_handler s'
      | Break s' \<Rightarrow> Some (Returns s')
      | Stuck s' \<Rightarrow> Some (Blocks s'))"

text \<open>
  \<open>load_monitor\<close>, first part of the loop body: the load is computed from one
  \<^verbatim>\<open>try_acquire()\<close> (a \<^verbatim>\<open>bool\<close>, converted to 0 or 1), and up to four more probes
  follow, the first successful one being released at once.
\<close>

fun load_monitor_probe :: "nat \<Rightarrow> server \<Rightarrow> server" where
  "load_monitor_probe 0 s = s"
| "load_monitor_probe (Suc n) s =
     (case try_acquire s of
        (True, s1) \<Rightarrow> release s1
      | (False, s1) \<Rightarrow> load_monitor_probe n s1)"

definition load_monitor_sample :: "server \<Rightarrow> nat \<times> server" where
  "load_monitor_sample s =
     (let (got, s1) = try_acquire s;
          load = (5 - (if got then 1 else 0)) * 20
      in (load, load_monitor_probe 4 s1))"

text \<open>Second part: adapting the number of handlers to the load.\<close>

definition load_monitor_adapt :: "nat \<Rightarrow> server \<Rightarrow> server thread" where
  "load_monitor_adapt load s =
     (if load > 80 \<and> active_handlers s < 10
      then
        let s1 = s\<lparr>active_handlers := active_handlers s + 1\<rparr>;
            s2 = release s1
        in Returns (emit (Handler_added load (active_handlers s2)) s2)
      else if load < 50 \<and> active_handlers s > 5
      then
        (case acquire (s\<lparr>active_handlers := active_handlers s - 1\<rparr>) of
           Blocks s' \<Rightarrow> Blocks s'
         | Returns s2 \<Rightarrow> Returns (emit (Handler_removed load (active_handlers s2)) s2))
      else Returns s)"

text \<open>Third part: the emergency check.\<close>

definition load_monitor_emergency :: "nat \<Rightarrow> server \<Rightarrow> server" where
  "load_monitor_emergency load s =
     (if load > 95
      then
        let s1 = s\<lparr>emergency_counter := emergency_counter s + 1\<rparr> in
        if 3 <s emergency_counter s1 \<and> \<not> emergency_mode s1
        then emit Emergency_on (s1\<lparr>emergency_mode := True\<rparr>)
        else s1
      else
        let s1 = s\<lparr>emergency_counter := 0\<rparr> in
        if emergency_mode s1
        then emit Emergency_off (s1\<lparr>emergency_mode := False\<rparr>)
        else s1)"

text \<open>One pass through the loop of \<open>load_monitor\<close>.\<close>

definition load_monitor_body :: "server \<Rightarrow> server loop" where
  "load_monitor_body s =
     (let (load, s1) = load_monitor_sample s;
          s2 = s1\<lparr>current_load := load\<rparr>
      in case load_monitor_adapt load s2 of
           Blocks s' \<Rightarrow> Stuck s'
         | Returns s3 \<Rightarrow> Continue (emit (Sleep_ms 500) (load_monitor_emergency load s3)))"

text \<open>
  The monitor's emergency check over a history of sampled loads, oldest first. The other
  parts of the loop body leave \<^verbatim>\<open>emergency_counter\<close> and \<^verbatim>\<open>emergency_mode\<close> alone.
\<close>

definition emergency_run :: "nat list \<Rightarrow> server \<Rightarrow> server" where
  "emergency_run loads s = foldl (\<lambda>s load. load_monitor_emergency load s) s loads"

section \<open>The specification's vocabulary\<close>

text \<open>
  The lexicographic rank \<open>(priority, \<not> critical, cost)\<close> of the specification, in the
  lexicographic order on triples (\<open>False < True\<close>, so critical comes first). The cost is
  the task's duration, and the data's size.
\<close>

definition spec_rank :: "QuantumTask \<Rightarrow> int \<times> bool \<times> int" where
  "spec_rank t = (QuantumTask.priority t, \<not> QuantumTask.is_critical t, duration t)"

definition spec_rank_data :: "MonitoringData \<Rightarrow> int \<times> bool \<times> nat" where
  "spec_rank_data d = (MonitoringData.priority d, \<not> MonitoringData.is_critical d, size_bytes d)"

text \<open>The number of consecutive samples above 95 at the end of a history.\<close>

definition breaches :: "nat list \<Rightarrow> nat" where
  "breaches loads = length (takeWhile (\<lambda>load. load > 95) (rev loads))"

section \<open>Sample inputs\<close>

text \<open>Tasks 1, 2, 3 and 6 of those that \<^verbatim>\<open>main\<close> of the simulator adds.\<close>

abbreviation task1 :: QuantumTask where
  "task1 \<equiv> \<lparr>id_task = 1, priority = 1, is_critical = True, duration = 2000,
             required_qubits = 8, is_split = False\<rparr>"
abbreviation task2 :: QuantumTask where
  "task2 \<equiv> \<lparr>id_task = 2, priority = 3, is_critical = False, duration = 3000,
             required_qubits = 6, is_split = False\<rparr>"
abbreviation task3 :: QuantumTask where
  "task3 \<equiv> \<lparr>id_task = 3, priority = 2, is_critical = False, duration = 1500,
             required_qubits = 4, is_split = False\<rparr>"
abbreviation task6 :: QuantumTask where
  "task6 \<equiv> \<lparr>id_task = 6, priority = 2, is_critical = True, duration = 1800,
             required_qubits = 7, is_split = False\<rparr>"

text \<open>A task of cost 1 that is large enough to be split.\<close>

abbreviation tiny :: QuantumTask where
  "tiny \<equiv> \<lparr>id_task = 11, priority = 1, is_critical = False, duration = 1,
            required_qubits = 6, is_split = False\<rparr>"

text \<open>Task 4 of \<^verbatim>\<open>main\<close>, which needs 10 qubits, and a task that needs 12.\<close>

abbreviation wide :: QuantumTask where
  "wide \<equiv> \<lparr>id_task = 4, priority = 1, is_critical = False, duration = 2500,
            required_qubits = 10, is_split = False\<rparr>"

abbreviation wider :: QuantumTask where
  "wider \<equiv> \<lparr>id_task = 12, priority = 1, is_critical = False, duration = 2500,
            required_qubits = 12, is_split = False\<rparr>"

text \<open>Two monitoring items of equal priority, and one of low priority.\<close>

abbreviation data1 :: MonitoringData where
  "data1 \<equiv> \<lparr>station_id = 1, priority = 2, is_critical = True, payload = ''a'', size_bytes = 900\<rparr>"
abbreviation data2 :: MonitoringData where
  "data2 \<equiv> \<lparr>station_id = 2, priority = 2, is_critical = False, payload = ''b'', size_bytes = 100\<rparr>"

abbreviation data3 :: MonitoringData where
  "data3 \<equiv> \<lparr>station_id = 3, priority = 4, is_critical = False, payload = ''c'', size_bytes = 300\<rparr>"

text \<open>The globals of the server as they are initialised.\<close>

abbreviation idle :: server where
  "idle \<equiv> \<lparr>data_queue = [], server_capacity = 5, current_load = 0, emergency_mode = False,
            active_handlers = 5, emergency_counter = 0, console = []\<rparr>"

text \<open>The globals of the simulator as they are initialised, with a sequence of random
  numbers that begins 3, 10.\<close>

abbreviation start :: sim where
  "start \<equiv> \<lparr>task_queue = [], quantum_processors = 4, failed_processor = - 1,
             rand_seq = (\<lambda>n. 7 * n + 3), rand_calls = 0, trace = []\<rparr>"

section \<open>The queue returns items in rank order\<close>

lemma ComparePriority_rank: "ComparePriority a b \<longleftrightarrow> spec_rank b < spec_rank a"
  by (auto simp: ComparePriority_def spec_rank_def)

lemma ComparePriority_data_rank: "ComparePriority_data a b \<longleftrightarrow> spec_rank_data b < spec_rank_data a"
  by (auto simp: ComparePriority_data_def spec_rank_data_def)

lemma pq_pushes_eq: "pq_pushes items = items"
proof -
  have "foldl (\<lambda>q x. pq_push x q) acc items = acc @ items" for acc :: "'a list"
    by (induction items arbitrary: acc) (simp_all add: pq_push_def)
  then show ?thesis by (simp add: pq_pushes_def)
qed

lemma pq_pops_subset: "pq_pops cmp q out \<Longrightarrow> set out \<subseteq> set q"
proof (induction out arbitrary: q)
  case Nil
  show ?case by simp
next
  case (Cons x out)
  then have "x \<in> set q" and "set out \<subseteq> set (remove1 x q)"
    by (simp_all add: is_top_def)
  then show ?case using set_remove1_subset [of x q] by auto
qed

lemma pq_pops_sorted:
  fixes r :: "'a \<Rightarrow> 'r::linorder"
  assumes cmp: "\<And>a b. cmp a b \<longleftrightarrow> r b < r a"
  shows "pq_pops cmp q out \<Longrightarrow> sorted (map r out)"
proof (induction out arbitrary: q)
  case Nil
  show ?case by simp
next
  case (Cons x out)
  from Cons.prems have top: "is_top cmp q x" and rest: "pq_pops cmp (remove1 x q) out"
    by simp_all
  have "r x \<le> r y" if "y \<in> set out" for y
  proof -
    from that pq_pops_subset [OF rest] have "y \<in> set q"
      using set_remove1_subset [of x q] by auto
    with top have "\<not> cmp x y" by (simp add: is_top_def)
    then show ?thesis by (simp add: cmp)
  qed
  with Cons.IH [OF rest] show ?case by simp
qed

lemma fold_keep_least:
  fixes r :: "'a \<Rightarrow> 'r::linorder"
  assumes cmp: "\<And>a b. cmp a b \<longleftrightarrow> r b < r a"
  shows "\<forall>y \<in> set (x # xs). r (fold (\<lambda>y best. if cmp best y then y else best) xs x) \<le> r y"
proof (induction xs arbitrary: x)
  case Nil
  show ?case by simp
next
  case (Cons z zs)
  let ?f = "\<lambda>b. fold (\<lambda>y best. if cmp best y then y else best) zs b"
  show ?case
  proof (cases "cmp x z")
    case True
    then have "r z < r x" by (simp add: cmp)
    moreover from Cons.IH [of z] have "\<forall>y \<in> set (z # zs). r (?f z) \<le> r y" .
    ultimately show ?thesis using True by fastforce
  next
    case False
    then have "r x \<le> r z" by (simp add: cmp)
    moreover from Cons.IH [of x] have "\<forall>y \<in> set (x # zs). r (?f x) \<le> r y" .
    ultimately show ?thesis using False by fastforce
  qed
qed

lemma pq_top_is_top:
  fixes r :: "'a \<Rightarrow> 'r::linorder"
  assumes cmp: "\<And>a b. cmp a b \<longleftrightarrow> r b < r a"
    and top: "pq_top cmp q = Some x"
  shows "is_top cmp q x"
proof (cases q)
  case Nil
  with top show ?thesis by simp
next
  case (Cons z zs)
  with top have x: "x = fold (\<lambda>y best. if cmp best y then y else best) zs z" by simp
  have "\<forall>y \<in> set q. r x \<le> r y"
    using fold_keep_least [of cmp r z zs] cmp unfolding x Cons by blast
  then have "\<forall>y \<in> set q. \<not> cmp x y" by (auto simp: cmp)
  with pq_top_in_set [OF top] show ?thesis by (simp add: is_top_def)
qed

lemma pq_pop_n_pops:
  fixes r :: "'a \<Rightarrow> 'r::linorder"
  assumes cmp: "\<And>a b. cmp a b \<longleftrightarrow> r b < r a"
  shows "pq_pops cmp q (pq_pop_n cmp n q)"
proof (induction n arbitrary: q)
  case 0
  show ?case by simp
next
  case (Suc n)
  show ?case
  proof (cases "pq_top cmp q")
    case None
    then show ?thesis by simp
  next
    case (Some x)
    have "is_top cmp q x" using cmp Some by (rule pq_top_is_top)
    with Suc [of "remove1 x q"] Some show ?thesis by (simp add: pq_pop_def)
  qed
qed

lemma pq_pop_n_all: "mset (pq_pop_n cmp (length q) q) = mset q"
proof (induction "length q" arbitrary: q)
  case 0
  then show ?case by simp
next
  case (Suc n)
  then obtain z zs where q: "q = z # zs" by (cases q) auto
  then obtain x where top: "pq_top cmp q = Some x" by simp
  then have mem: "x \<in> set q" by (rule pq_top_in_set)
  then have "length (remove1 x q) = n" using Suc.hyps(2) by (simp add: length_remove1)
  with Suc.hyps(1) [of "remove1 x q"] have "mset (pq_pop_n cmp n (remove1 x q)) = mset (remove1 x q)"
    by simp
  with top mem Suc.hyps(2) [symmetric] show ?case by (simp add: pq_pop_def)
qed

text \<open>
  Claim C1. Items pushed into the empty queue and then popped, with no push in between,
  come out in non-decreasing rank \<open>(priority, \<not> critical, cost)\<close>: for every sequence
  of pops that obeys the contract of the container, and for the executable queue, which
  returns every item pushed. This holds for the tasks of the simulator and for the data of
  the server. Of two items of equal priority of which exactly one is critical, the critical
  one is at the top whichever was pushed first.
\<close>

theorem pop_order:
  "(pq_pops ComparePriority (pq_pushes items) out \<longrightarrow> sorted (map spec_rank out))
   \<and> sorted (map spec_rank (pq_pop_n ComparePriority n (pq_pushes items)))
   \<and> mset (pq_pop_n ComparePriority (length items) (pq_pushes items)) = mset items
   \<and> (pq_pops ComparePriority_data (pq_pushes ditems) dout \<longrightarrow> sorted (map spec_rank_data dout))
   \<and> sorted (map spec_rank_data (pq_pop_n ComparePriority_data n (pq_pushes ditems)))
   \<and> mset (pq_pop_n ComparePriority_data (length ditems) (pq_pushes ditems)) = mset ditems
   \<and> (QuantumTask.priority a = QuantumTask.priority b \<and> QuantumTask.is_critical a
        \<and> \<not> QuantumTask.is_critical b \<longrightarrow>
        pq_top ComparePriority (pq_pushes [a, b]) = Some a
        \<and> pq_top ComparePriority (pq_pushes [b, a]) = Some a
        \<and> (\<forall>x. is_top ComparePriority (pq_pushes [a, b]) x \<or> is_top ComparePriority (pq_pushes [b, a]) x
              \<longrightarrow> x = a))
   \<and> (MonitoringData.priority c = MonitoringData.priority d \<and> MonitoringData.is_critical c
        \<and> \<not> MonitoringData.is_critical d \<longrightarrow>
        pq_top ComparePriority_data (pq_pushes [c, d]) = Some c
        \<and> pq_top ComparePriority_data (pq_pushes [d, c]) = Some c
        \<and> (\<forall>x. is_top ComparePriority_data (pq_pushes [c, d]) x
                \<or> is_top ComparePriority_data (pq_pushes [d, c]) x \<longrightarrow> x = c))"
proof (intro conjI)
  show "pq_pops ComparePriority (pq_pushes items) out \<longrightarrow> sorted (map spec_rank out)"
    using pq_pops_sorted [of ComparePriority spec_rank] ComparePriority_rank by blast
  show "sorted (map spec_rank (pq_pop_n ComparePriority n (pq_pushes items)))"
    using pq_pops_sorted [of ComparePriority spec_rank] pq_pop_n_pops [of ComparePriority spec_rank]
      ComparePriority_rank by blast
  show "mset (pq_pop_n ComparePriority (length items) (pq_pushes items)) = mset items"
    by (simp add: pq_pushes_eq pq_pop_n_all)
  show "pq_pops ComparePriority_data (pq_pushes ditems) dout \<longrightarrow> sorted (map spec_rank_data dout)"
    using pq_pops_sorted [of ComparePriority_data spec_rank_data] ComparePriority_data_rank by blast
  show "sorted (map spec_rank_data (pq_pop_n ComparePriority_data n (pq_pushes ditems)))"
    using pq_pops_sorted [of ComparePriority_data spec_rank_data]
      pq_pop_n_pops [of ComparePriority_data spec_rank_data] ComparePriority_data_rank by blast
  show "mset (pq_pop_n ComparePriority_data (length ditems) (pq_pushes ditems)) = mset ditems"
    by (simp add: pq_pushes_eq pq_pop_n_all)
  show "QuantumTask.priority a = QuantumTask.priority b \<and> QuantumTask.is_critical a
        \<and> \<not> QuantumTask.is_critical b \<longrightarrow>
        pq_top ComparePriority (pq_pushes [a, b]) = Some a
        \<and> pq_top ComparePriority (pq_pushes [b, a]) = Some a
        \<and> (\<forall>x. is_top ComparePriority (pq_pushes [a, b]) x \<or> is_top ComparePriority (pq_pushes [b, a]) x
              \<longrightarrow> x = a)"
    by (auto simp: pq_pushes_eq is_top_def ComparePriority_def)
  show "MonitoringData.priority c = MonitoringData.priority d \<and> MonitoringData.is_critical c
        \<and> \<not> MonitoringData.is_critical d \<longrightarrow>
        pq_top ComparePriority_data (pq_pushes [c, d]) = Some c
        \<and> pq_top ComparePriority_data (pq_pushes [d, c]) = Some c
        \<and> (\<forall>x. is_top ComparePriority_data (pq_pushes [c, d]) x
                \<or> is_top ComparePriority_data (pq_pushes [d, c]) x \<longrightarrow> x = c)"
    by (auto simp: pq_pushes_eq is_top_def ComparePriority_data_def)
qed

theorem pop_order_witness:
  "pq_pops ComparePriority (pq_pushes [task2, task1]) [task1, task2]
   \<and> sorted (map spec_rank [task1, task2])
   \<and> pq_pops ComparePriority_data (pq_pushes [data2, data1]) [data1, data2]
   \<and> sorted (map spec_rank_data [data1, data2])
   \<and> QuantumTask.priority task6 = QuantumTask.priority task3
   \<and> QuantumTask.is_critical task6 \<and> \<not> QuantumTask.is_critical task3
   \<and> pq_top ComparePriority (pq_pushes [task6, task3]) = Some task6
   \<and> pq_top ComparePriority (pq_pushes [task3, task6]) = Some task6
   \<and> MonitoringData.priority data1 = MonitoringData.priority data2
   \<and> MonitoringData.is_critical data1 \<and> \<not> MonitoringData.is_critical data2
   \<and> pq_top ComparePriority_data (pq_pushes [data1, data2]) = Some data1
   \<and> pq_top ComparePriority_data (pq_pushes [data2, data1]) = Some data1"
proof -
  have h1: "pq_pops ComparePriority (pq_pushes [task2, task1]) [task1, task2]"
    by (simp add: pq_pushes_def pq_push_def is_top_def ComparePriority_def)
  have h2: "pq_pops ComparePriority_data (pq_pushes [data2, data1]) [data1, data2]"
    by (simp add: pq_pushes_def pq_push_def is_top_def ComparePriority_data_def)
  have h3: "QuantumTask.priority task6 = QuantumTask.priority task3
     \<and> QuantumTask.is_critical task6 \<and> \<not> QuantumTask.is_critical task3"
    by simp
  have h4: "MonitoringData.priority data1 = MonitoringData.priority data2
     \<and> MonitoringData.is_critical data1 \<and> \<not> MonitoringData.is_critical data2"
    by simp
  from pop_order [of "[task2, task1]" "[task1, task2]" 2 "[data2, data1]" "[data1, data2]"
      task6 task3 data1 data2] h1 h2 h3 h4
  show ?thesis by blast
qed

section \<open>Dispatch to a failed processor\<close>

text \<open>
  Claim C2. When \<^verbatim>\<open>failed_processor\<close> equals the unit \<open>U\<close>, dispatching any task to
  \<open>U\<close> prints the failure line and returns; \<^verbatim>\<open>acquire()\<close> is not called and the
  semaphore is left as it was. The worker loop then goes on to its next pass. This is the
  case once \<open>simulate_processor_failure U\<close> has run.
\<close>

theorem fail_fast:
  "(failed_processor s = U \<longrightarrow>
     process_quantum_task task U s = Returns (s\<lparr>trace := trace s @ [Failed (id_task task) U]\<rparr>)
     \<and> Acquire \<notin> set (drop (length (trace s)) (trace (state_of (process_quantum_task task U s))))
     \<and> quantum_processors (state_of (process_quantum_task task U s)) = quantum_processors s
     \<and> (pq_top ComparePriority (task_queue s) = Some task
          \<and> \<not> (required_qubits task > 5 \<and> \<not> is_split task) \<longrightarrow>
        process_quantum_tasks_body U s =
          Continue (s\<lparr>task_queue := pq_pop ComparePriority (task_queue s),
                      trace := trace s @ [Failed (id_task task) U]\<rparr>)))
   \<and> failed_processor (simulate_processor_failure U s) = U
   \<and> process_quantum_task task U (simulate_processor_failure U s) =
        Returns (say (Failed (id_task task) U) (simulate_processor_failure U s))"
  by (auto simp: process_quantum_task_def process_quantum_tasks_body_def
      simulate_processor_failure_def say_def Let_def)

theorem fail_fast_witness:
  "failed_processor (start\<lparr>failed_processor := 2\<rparr>) = 2
   \<and> process_quantum_task task3 2 (start\<lparr>failed_processor := 2\<rparr>)
       = Returns (start\<lparr>failed_processor := 2, trace := [Failed 3 2]\<rparr>)
   \<and> process_quantum_tasks_body 2 (start\<lparr>failed_processor := 2, task_queue := [task3]\<rparr>)
       = Continue (start\<lparr>failed_processor := 2, trace := [Failed 3 2]\<rparr>)"
proof -
  have h: "failed_processor (start\<lparr>failed_processor := 2\<rparr>) = 2" by simp
  have h': "failed_processor (start\<lparr>failed_processor := 2, task_queue := [task3]\<rparr>) = 2" by simp
  have t: "pq_top ComparePriority (task_queue (start\<lparr>failed_processor := 2, task_queue := [task3]\<rparr>))
    = Some task3 \<and> \<not> (required_qubits task3 > 5 \<and> \<not> is_split task3)" by simp
  from fail_fast [of "start\<lparr>failed_processor := 2\<rparr>" 2 task3] h
    fail_fast [of "start\<lparr>failed_processor := 2, task_queue := [task3]\<rparr>" 2 task3] h' t
  show ?thesis by (simp add: pq_pop_def)
qed

section \<open>Splitting\<close>

lemma sdiv2_nonneg: "0 \<le> (k::int) \<Longrightarrow> k sdiv 2 = k div 2"
  by (simp add: signed_divide_int_def sgn_if)

lemma body_split:
  assumes "pq_top ComparePriority (task_queue s) = Some t" "required_qubits t > 5" "\<not> is_split t"
  shows "process_quantum_tasks_body p s =
           Continue (s\<lparr>task_queue := pq_pop ComparePriority (task_queue s)
                          @ [split_task (rand_seq s (rand_calls s)) t,
                             split_task (rand_seq s (Suc (rand_calls s))) t],
                        rand_calls := Suc (Suc (rand_calls s)),
                        trace := trace s @ [Splitting p (id_task t)]\<rparr>)"
  using assms
  by (simp add: process_quantum_tasks_body_def Let_def rand_def say_def pq_push_def)

lemma body_dispatch:
  assumes "pq_top ComparePriority (task_queue s) = Some t" "\<not> (required_qubits t > 5 \<and> \<not> is_split t)"
  shows "process_quantum_tasks_body p s =
           (case process_quantum_task t p (s\<lparr>task_queue := pq_pop ComparePriority (task_queue s)\<rparr>) of
              Returns s' \<Rightarrow> Continue s' | Blocks s' \<Rightarrow> Stuck s')"
  using assms by (auto simp add: process_quantum_tasks_body_def Let_def)

lemma dispatch_trace:
  "trace (state_of (process_quantum_task t p s)) \<noteq> trace s @ [Splitting p' i]"
  by (simp add: process_quantum_task_def say_def Let_def)

text \<open>
  Claim C3, as the code has it. The loop never rejects a split: a task at the top of the
  queue that needs more than 5 qubits and is not itself a child is always replaced by its
  two children and is not executed. Every child of such a task needs at least 3 qubits. A
  child has a positive duration exactly when its parent's duration is at least 2.
\<close>

theorem split_never_rejected:
  "(pq_top ComparePriority (task_queue s) = Some t \<and> required_qubits t > 5 \<and> \<not> is_split t \<longrightarrow>
      process_quantum_tasks_body p s =
        Continue (s\<lparr>task_queue := pq_pop ComparePriority (task_queue s)
                       @ [split_task (rand_seq s (rand_calls s)) t,
                          split_task (rand_seq s (Suc (rand_calls s))) t],
                     rand_calls := Suc (Suc (rand_calls s)),
                     trace := trace s @ [Splitting p (id_task t)]\<rparr>)
      \<and> 3 \<le> required_qubits (split_task r t))
   \<and> (0 < duration (split_task r t) \<longleftrightarrow> 2 \<le> duration t)"
proof -
  have "0 < duration t sdiv 2 \<longleftrightarrow> 2 \<le> duration t"
    by (cases "0 \<le> duration t") (auto simp: signed_divide_int_def sgn_if)
  moreover have "3 \<le> required_qubits t sdiv 2" if "required_qubits t > 5"
    using that by (simp add: sdiv2_nonneg)
  ultimately show ?thesis
    using body_split [of s t p] by (auto simp: split_task_def)
qed

text \<open>
  Claim C3 as the specification states it fails for a task of duration 1 that needs 6
  qubits: it is split into two children of duration 0, which are queued and later
  executed, and the task itself is never executed.
\<close>

theorem split_rejection_counterexample:
  "duration (split_task 3 tiny) = 0
   \<and> process_quantum_tasks_body 0 (start\<lparr>task_queue := [tiny]\<rparr>) =
       Continue (start\<lparr>task_queue :=
           [\<lparr>id_task = 1103, priority = 1, is_critical = False, duration = 0,
              required_qubits = 3, is_split = True\<rparr>,
            \<lparr>id_task = 1110, priority = 1, is_critical = False, duration = 0,
              required_qubits = 3, is_split = True\<rparr>],
          rand_calls := 2, trace := [Splitting 0 11]\<rparr>)
   \<and> process_quantum_tasks 0 (start\<lparr>task_queue := [tiny]\<rparr>) =
       Returns (start\<lparr>rand_calls := 2, trace :=
          [Splitting 0 11,
           Acquire,
           Started 0 \<lparr>id_task = 1103, priority = 1, is_critical = False, duration = 0,
              required_qubits = 3, is_split = True\<rparr>,
           Sleep 0, Release, Completed 0 1103,
           Acquire,
           Started 0 \<lparr>id_task = 1110, priority = 1, is_critical = False, duration = 0,
              required_qubits = 3, is_split = True\<rparr>,
           Sleep 0, Release, Completed 0 1110]\<rparr>)"
  by (simp add: process_quantum_tasks_body_def process_quantum_task_def split_task_def
      signed_divide_int_def pq_pop_def pq_push_def rand_def say_def Let_def ComparePriority_def)

theorem split_never_rejected_witness:
  "pq_top ComparePriority (task_queue (start\<lparr>task_queue := [tiny]\<rparr>)) = Some tiny
   \<and> required_qubits tiny > 5 \<and> \<not> is_split tiny
   \<and> process_quantum_tasks_body 0 (start\<lparr>task_queue := [tiny]\<rparr>) =
       Continue (start\<lparr>task_queue := [split_task 3 tiny, split_task 10 tiny],
          rand_calls := 2, trace := [Splitting 0 11]\<rparr>)
   \<and> 3 \<le> required_qubits (split_task 3 tiny)
   \<and> \<not> 0 < duration (split_task 3 tiny)"
proof -
  have h: "pq_top ComparePriority (task_queue (start\<lparr>task_queue := [tiny]\<rparr>)) = Some tiny
     \<and> required_qubits tiny > 5 \<and> \<not> is_split tiny" by simp
  from split_never_rejected [of "start\<lparr>task_queue := [tiny]\<rparr>" tiny 0 3] h
  show ?thesis by (simp add: pq_pop_def)
qed

text \<open>
  Claim C4. The duration and the number of qubits of a child do not depend on the random
  number, only the identifier does. A task of non-negative duration that the loop splits
  is replaced by exactly two children, each with half the duration and half the qubits,
  rounded down; the two durations sum to at most the parent's, with equality exactly when
  the parent's duration is even, and likewise for the qubits.
\<close>

theorem split_halves:
  "duration (split_task r t) = duration (split_task r' t)
   \<and> required_qubits (split_task r t) = required_qubits (split_task r' t)
   \<and> (pq_top ComparePriority (task_queue s) = Some t \<and> required_qubits t > 5 \<and> \<not> is_split t
        \<and> 0 \<le> duration t \<longrightarrow>
       task_queue (loop_state (process_quantum_tasks_body p s)) =
         pq_pop ComparePriority (task_queue s)
           @ [split_task (rand_seq s (rand_calls s)) t,
              split_task (rand_seq s (Suc (rand_calls s))) t]
       \<and> duration (split_task r t) = duration t div 2
       \<and> required_qubits (split_task r t) = required_qubits t div 2
       \<and> duration (split_task r t) + duration (split_task r' t) \<le> duration t
       \<and> (duration (split_task r t) + duration (split_task r' t) = duration t
             \<longleftrightarrow> even (duration t))
       \<and> required_qubits (split_task r t) + required_qubits (split_task r' t)
             \<le> required_qubits t
       \<and> (required_qubits (split_task r t) + required_qubits (split_task r' t)
             = required_qubits t \<longleftrightarrow> even (required_qubits t)))"
proof (intro conjI impI)
  show "duration (split_task r t) = duration (split_task r' t)"
    and "required_qubits (split_task r t) = required_qubits (split_task r' t)"
    by (simp_all add: split_task_def)
next
  assume a: "pq_top ComparePriority (task_queue s) = Some t \<and> required_qubits t > 5
    \<and> \<not> is_split t \<and> 0 \<le> duration t"
  then have d: "duration (split_task x t) = duration t div 2"
    and q: "required_qubits (split_task x t) = required_qubits t div 2" for x
    by (simp_all add: split_task_def sdiv2_nonneg)
  have e: "k div 2 + k div 2 \<le> k \<and> (k div 2 + k div 2 = k \<longleftrightarrow> even k)" for k :: int
    by presburger
  show "task_queue (loop_state (process_quantum_tasks_body p s)) =
         pq_pop ComparePriority (task_queue s)
           @ [split_task (rand_seq s (rand_calls s)) t,
              split_task (rand_seq s (Suc (rand_calls s))) t]"
    using body_split [of s t p] a by simp
  show "duration (split_task r t) = duration t div 2"
    and "required_qubits (split_task r t) = required_qubits t div 2"
    by (simp_all add: d q)
  show "duration (split_task r t) + duration (split_task r' t) \<le> duration t"
    and "duration (split_task r t) + duration (split_task r' t) = duration t
           \<longleftrightarrow> even (duration t)"
    using e [of "duration t"] by (simp_all add: d)
  show "required_qubits (split_task r t) + required_qubits (split_task r' t) \<le> required_qubits t"
    and "required_qubits (split_task r t) + required_qubits (split_task r' t) = required_qubits t
           \<longleftrightarrow> even (required_qubits t)"
    using e [of "required_qubits t"] by (simp_all add: q)
qed

theorem split_halves_witness:
  "pq_top ComparePriority (task_queue (start\<lparr>task_queue := [task1]\<rparr>)) = Some task1
   \<and> required_qubits task1 > 5 \<and> \<not> is_split task1 \<and> 0 \<le> duration task1
   \<and> task_queue (loop_state (process_quantum_tasks_body 0 (start\<lparr>task_queue := [task1]\<rparr>)))
        = [split_task 3 task1, split_task 10 task1]
   \<and> duration (split_task 3 task1) = 1000 \<and> required_qubits (split_task 3 task1) = 4
   \<and> duration (split_task 10 task1) = 1000 \<and> required_qubits (split_task 10 task1) = 4
   \<and> duration (split_task 3 task1) + duration (split_task 10 task1) = duration task1"
proof -
  have h: "pq_top ComparePriority (task_queue (start\<lparr>task_queue := [task1]\<rparr>)) = Some task1
     \<and> required_qubits task1 > 5 \<and> \<not> is_split task1 \<and> 0 \<le> duration task1" by simp
  from split_halves [of 3 task1 10 "start\<lparr>task_queue := [task1]\<rparr>" 0]
    split_halves [of 10 task1 3 "start\<lparr>task_queue := [task1]\<rparr>" 0] h
  show ?thesis by (simp add: pq_pop_def)
qed

text \<open>
  Claim C10. A child returned by \<open>split_task\<close> has the priority and the critical flag of
  its parent; it differs from the parent in the identifier, the duration, the number of
  qubits and the split flag only.
\<close>

theorem split_frame:
  "QuantumTask.priority (split_task r t) = QuantumTask.priority t
   \<and> QuantumTask.is_critical (split_task r t) = QuantumTask.is_critical t
   \<and> split_task r t =
       t\<lparr>id_task := id_task (split_task r t), duration := duration (split_task r t),
         required_qubits := required_qubits (split_task r t), is_split := is_split (split_task r t)\<rparr>"
  by (simp add: split_task_def)

text \<open>
  Claim C7. The loop splits the task at the top of the queue (it prints the splitting
  line and queues the two children instead of executing the task) exactly when the task
  needs more than 5 qubits and is not itself a child; otherwise it dispatches the task.
  Every child is marked as split, so a child at the top of the queue is dispatched and
  leaves the queue, however many qubits it needs. A task of 10 qubits yields children of
  5 qubits.
\<close>

theorem split_condition:
  "(pq_top ComparePriority (task_queue s) = Some t \<longrightarrow>
      (trace (loop_state (process_quantum_tasks_body p s)) = trace s @ [Splitting p (id_task t)]
         \<longleftrightarrow> required_qubits t > 5 \<and> \<not> is_split t)
      \<and> (task_queue (loop_state (process_quantum_tasks_body p s)) =
            pq_pop ComparePriority (task_queue s)
              @ [split_task (rand_seq s (rand_calls s)) t,
                 split_task (rand_seq s (Suc (rand_calls s))) t]
         \<longleftrightarrow> required_qubits t > 5 \<and> \<not> is_split t)
      \<and> (\<not> (required_qubits t > 5 \<and> \<not> is_split t) \<longrightarrow>
            process_quantum_tasks_body p s =
              (case process_quantum_task t p
                      (s\<lparr>task_queue := pq_pop ComparePriority (task_queue s)\<rparr>) of
                 Returns s' \<Rightarrow> Continue s' | Blocks s' \<Rightarrow> Stuck s')))
   \<and> is_split (split_task r t)
   \<and> (pq_top ComparePriority (task_queue s) = Some (split_task r t) \<longrightarrow>
        process_quantum_tasks_body p s =
          (case process_quantum_task (split_task r t) p
                  (s\<lparr>task_queue := pq_pop ComparePriority (task_queue s)\<rparr>) of
             Returns s' \<Rightarrow> Continue s' | Blocks s' \<Rightarrow> Stuck s')
        \<and> task_queue (loop_state (process_quantum_tasks_body p s))
            = pq_pop ComparePriority (task_queue s))
   \<and> (required_qubits t = 10 \<longrightarrow> required_qubits (split_task r t) = 5)"
proof (intro conjI impI)
  assume top: "pq_top ComparePriority (task_queue s) = Some t"
  let ?split = "required_qubits t > 5 \<and> \<not> is_split t"
  let ?s1 = "s\<lparr>task_queue := pq_pop ComparePriority (task_queue s)\<rparr>"
  have disp: "loop_state (process_quantum_tasks_body p s) = state_of (process_quantum_task t p ?s1)"
    if "\<not> ?split"
    using body_dispatch [OF top that, of p] by (simp split: thread.splits)
  show "trace (loop_state (process_quantum_tasks_body p s)) = trace s @ [Splitting p (id_task t)]
         \<longleftrightarrow> ?split"
  proof (cases ?split)
    case True
    then show ?thesis using body_split [OF top, of p] by simp
  next
    case False
    then show ?thesis
      using disp dispatch_trace [of t p ?s1 p "id_task t"] by simp
  qed
  show "task_queue (loop_state (process_quantum_tasks_body p s)) =
            pq_pop ComparePriority (task_queue s)
              @ [split_task (rand_seq s (rand_calls s)) t,
                 split_task (rand_seq s (Suc (rand_calls s))) t]
         \<longleftrightarrow> ?split"
  proof (cases ?split)
    case True
    then show ?thesis using body_split [OF top, of p] by simp
  next
    case False
    then show ?thesis
      using disp process_quantum_task_queue [of t p ?s1] by simp
  qed
  show "process_quantum_tasks_body p s =
          (case process_quantum_task t p ?s1 of Returns s' \<Rightarrow> Continue s' | Blocks s' \<Rightarrow> Stuck s')"
    if "\<not> ?split"
    using body_dispatch [OF top that] .
next
  show "is_split (split_task r t)" by (simp add: split_task_def)
next
  assume top: "pq_top ComparePriority (task_queue s) = Some (split_task r t)"
  have ns: "\<not> (required_qubits (split_task r t) > 5 \<and> \<not> is_split (split_task r t))"
    by (simp add: split_task_def)
  show d: "process_quantum_tasks_body p s =
          (case process_quantum_task (split_task r t) p
                  (s\<lparr>task_queue := pq_pop ComparePriority (task_queue s)\<rparr>) of
             Returns s' \<Rightarrow> Continue s' | Blocks s' \<Rightarrow> Stuck s')"
    using body_dispatch [OF top ns] .
  show "task_queue (loop_state (process_quantum_tasks_body p s))
            = pq_pop ComparePriority (task_queue s)"
    using process_quantum_task_queue
      [of "split_task r t" p "s\<lparr>task_queue := pq_pop ComparePriority (task_queue s)\<rparr>"]
    unfolding d
    by (cases "process_quantum_task (split_task r t) p
                 (s\<lparr>task_queue := pq_pop ComparePriority (task_queue s)\<rparr>)") simp_all
next
  assume "required_qubits t = 10"
  then show "required_qubits (split_task r t) = 5"
    by (simp add: split_task_def signed_divide_int_def)
qed

theorem split_condition_witness:
  "pq_top ComparePriority (task_queue (start\<lparr>task_queue := [wide]\<rparr>)) = Some wide
   \<and> required_qubits wide = 10
   \<and> task_queue (loop_state (process_quantum_tasks_body 0 (start\<lparr>task_queue := [wide]\<rparr>)))
       = [split_task 3 wide, split_task 10 wide]
   \<and> required_qubits (split_task 3 wide) = 5 \<and> required_qubits (split_task 10 wide) = 5
   \<and> pq_top ComparePriority (task_queue (start\<lparr>task_queue := [split_task 3 wider]\<rparr>))
       = Some (split_task 3 wider)
   \<and> 5 < required_qubits (split_task 3 wider)
   \<and> task_queue (loop_state (process_quantum_tasks_body 0
        (start\<lparr>task_queue := [split_task 3 wider]\<rparr>))) = []
   \<and> pq_top ComparePriority (task_queue (start\<lparr>task_queue := [task3]\<rparr>)) = Some task3
   \<and> \<not> (required_qubits task3 > 5 \<and> \<not> is_split task3)
   \<and> process_quantum_tasks_body 0 (start\<lparr>task_queue := [task3]\<rparr>) =
       Continue (start\<lparr>trace := [Acquire, Started 0 task3, Sleep 1500, Release, Completed 0 3]\<rparr>)"
proof -
  have h1: "pq_top ComparePriority (task_queue (start\<lparr>task_queue := [wide]\<rparr>)) = Some wide"
    by simp
  have h2: "required_qubits wide = 10" by simp
  have h3: "pq_top ComparePriority (task_queue (start\<lparr>task_queue := [split_task 3 wider]\<rparr>))
       = Some (split_task 3 wider)" by simp
  have h4: "pq_top ComparePriority (task_queue (start\<lparr>task_queue := [task3]\<rparr>)) = Some task3"
    by simp
  have h5: "\<not> (required_qubits task3 > 5 \<and> \<not> is_split task3)" by simp
  have h6: "5 < required_qubits (split_task 3 wider)"
    by (simp add: split_task_def signed_divide_int_def)
  from split_condition [of "start\<lparr>task_queue := [wide]\<rparr>" wide 0 3]
    split_condition [of "start\<lparr>task_queue := [wide]\<rparr>" wide 0 10]
    split_condition [of "start\<lparr>task_queue := [split_task 3 wider]\<rparr>" wider 0 3]
    split_condition [of "start\<lparr>task_queue := [task3]\<rparr>" task3 0 3]
    h1 h2 h3 h4 h5 h6
  show ?thesis
    by (simp add: pq_pop_def process_quantum_task_def say_def Let_def)
qed

section \<open>The worker loops at the empty queue\<close>

lemma body_Break:
  "process_quantum_tasks_body p s = Break s' \<Longrightarrow> s' = s \<and> task_queue s = []"
  by (cases "task_queue s")
    (auto simp: process_quantum_tasks_body_def Let_def rand_def split: if_splits thread.splits)

lemma body_Continue_units:
  "process_quantum_tasks_body p s = Continue s' \<Longrightarrow> quantum_processors s' = quantum_processors s"
  by (auto simp: process_quantum_tasks_body_def process_quantum_task_def Let_def rand_def say_def
      split: option.splits if_splits thread.splits)

lemma body_Stuck:
  "process_quantum_tasks_body p s = Stuck s' \<Longrightarrow> quantum_processors s = 0"
  by (auto simp: process_quantum_tasks_body_def process_quantum_task_def Let_def rand_def say_def
      split: option.splits if_splits thread.splits)

lemma worker_returns:
  "0 < quantum_processors s \<Longrightarrow>
   \<exists>s'. process_quantum_tasks p s = Returns s' \<and> task_queue s' = []"
proof (induction p s rule: process_quantum_tasks.induct)
  case (1 p s)
  show ?case
  proof (cases "process_quantum_tasks_body p s")
    case (Break s')
    then show ?thesis using body_Break [OF Break] by simp
  next
    case (Continue s')
    with "1.prems" have "0 < quantum_processors s'" by (simp add: body_Continue_units)
    with "1.IH" [OF Continue] Continue show ?thesis by simp
  next
    case (Stuck s')
    with "1.prems" body_Stuck [OF Stuck] show ?thesis by simp
  qed
qed

lemma data_handler_body_not_Break: "data_handler_body v \<noteq> Break v'"
  by (simp add: data_handler_body_def split: option.splits thread.splits)

lemma data_handler_passes:
  "data_handler v =
     (case passes data_handler_body n v of
        Continue s' \<Rightarrow> data_handler s'
      | Break s' \<Rightarrow> Some (Returns s')
      | Stuck s' \<Rightarrow> Some (Blocks s'))"
proof (induction n arbitrary: v)
  case 0
  show ?case by simp
next
  case (Suc n)
  show ?case
  proof (cases "data_handler_body v")
    case (Continue s')
    with Suc [of s'] show ?thesis by (subst data_handler.simps) simp
  next
    case (Break s')
    then show ?thesis by (subst data_handler.simps) simp
  next
    case (Stuck s')
    then show ?thesis by (subst data_handler.simps) simp
  qed
qed

lemma passes_not_Break: "passes data_handler_body n v \<noteq> Break v'"
  by (induction n arbitrary: v) (auto simp: data_handler_body_not_Break split: loop.splits)

lemma passes_empty_queue:
  "data_queue v = [] \<Longrightarrow>
   passes data_handler_body n v = Continue (v\<lparr>console := console v @ replicate n (Sleep_ms 100)\<rparr>)"
proof (induction n arbitrary: v)
  case 0
  show ?case by simp
next
  case (Suc n)
  from Suc.prems have b: "data_handler_body v = Continue (emit (Sleep_ms 100) v)"
    by (simp add: data_handler_body_def)
  from Suc.prems have "data_queue (emit (Sleep_ms 100) v) = []" by (simp add: emit_def)
  from Suc.IH [OF this] b show ?case
    by (simp add: emit_def replicate_app_Cons_same)
qed

lemma data_handler_never_returns: "data_handler v \<noteq> Some (Returns v')"
proof
  assume returns: "data_handler v = Some (Returns v')"
  have "y \<noteq> Returns v'" if "data_handler x = Some y" for x y
    using that
    by (rule data_handler.raw_induct [where P = "\<lambda>_ y. y \<noteq> Returns v'", rotated])
      (auto simp: data_handler_body_not_Break split: loop.splits)
  with returns show False by blast
qed

lemma data_handler_body_units:
  "data_handler_body v = Continue v' \<Longrightarrow> server_capacity v' = server_capacity v"
  by (auto simp: data_handler_body_def process_data_def acquire_def release_def emit_def Let_def
      split: option.splits thread.splits if_splits)

lemma data_handler_body_Stuck:
  "data_handler_body v = Stuck v' \<Longrightarrow> server_capacity v = 0 \<and> data_queue v \<noteq> []"
  by (auto simp: data_handler_body_def process_data_def acquire_def release_def emit_def Let_def
      split: option.splits thread.splits if_splits)

lemma data_handler_blocked:
  assumes "data_handler v = Some y"
  shows "server_capacity v = 0 \<and> data_queue v \<noteq> []"
  using assms
proof (rule data_handler.raw_induct [where P = "\<lambda>s _. server_capacity s = 0 \<and> data_queue s \<noteq> []", rotated])
  fix f s y
  assume IH: "\<And>s y. f s = Some y \<Longrightarrow> server_capacity s = 0 \<and> data_queue s \<noteq> []"
    and step: "(case data_handler_body s of Continue s' \<Rightarrow> f s' | Break s' \<Rightarrow> Some (Returns s')
        | Stuck s' \<Rightarrow> Some (Blocks s')) = Some y"
  show "server_capacity s = 0 \<and> data_queue s \<noteq> []"
  proof (cases "data_handler_body s")
    case (Continue s')
    with step have "f s' = Some y" by simp
    from IH [OF this] have u: "server_capacity s' = 0" and q: "data_queue s' \<noteq> []" by simp_all
    from u data_handler_body_units [OF Continue] have "server_capacity s = 0" by simp
    moreover have "data_queue s \<noteq> []"
    proof
      assume "data_queue s = []"
      with Continue have "s' = emit (Sleep_ms 100) s" by (simp add: data_handler_body_def)
      with \<open>data_queue s = []\<close> q show False by (simp add: emit_def)
    qed
    ultimately show ?thesis by simp
  next
    case (Break s')
    then show ?thesis by (simp add: data_handler_body_not_Break)
  next
    case (Stuck s')
    then show ?thesis by (rule data_handler_body_Stuck)
  qed
qed

lemma data_handler_suspended:
  assumes "data_handler v = Some y"
  shows "\<exists>k s'. passes data_handler_body k v = Stuck s' \<and> y = Blocks s'"
  using assms
proof (rule data_handler.raw_induct
    [where P = "\<lambda>s y. \<exists>k s'. passes data_handler_body k s = Stuck s' \<and> y = Blocks s'", rotated])
  fix f s y
  assume IH: "\<And>s y. f s = Some y \<Longrightarrow> \<exists>k s'. passes data_handler_body k s = Stuck s' \<and> y = Blocks s'"
    and step: "(case data_handler_body s of Continue s' \<Rightarrow> f s' | Break s' \<Rightarrow> Some (Returns s')
        | Stuck s' \<Rightarrow> Some (Blocks s')) = Some y"
  show "\<exists>k s'. passes data_handler_body k s = Stuck s' \<and> y = Blocks s'"
  proof (cases "data_handler_body s")
    case (Continue s1)
    with step have "f s1 = Some y" by simp
    from IH [OF this] obtain k s' where "passes data_handler_body k s1 = Stuck s'" "y = Blocks s'"
      by blast
    with Continue have "passes data_handler_body (Suc k) s = Stuck s' \<and> y = Blocks s'" by simp
    then show ?thesis by blast
  next
    case (Break s1)
    then show ?thesis by (simp add: data_handler_body_not_Break)
  next
    case (Stuck s1)
    with step have "passes data_handler_body (Suc 0) s = Stuck s1 \<and> y = Blocks s1" by auto
    then show ?thesis by blast
  qed
qed

text \<open>
  Claim C9. The loop of the simulator's worker ends when it finds the queue empty: from
  every queue, with a unit of the semaphore available, \<open>process_quantum_tasks\<close> returns
  and leaves the queue empty, and on the empty queue it returns at once. The handler of
  the server does not end there: on the empty queue a pass of its loop sleeps for 100 ms
  and goes on, so that after any number \<open>n\<close> of passes the loop is still running and has
  slept \<open>n\<close> times, and the call goes round for ever. The loop of \<open>data_handler\<close> is the
  iteration of these passes; it never leaves by \<^verbatim>\<open>break\<close> and never returns. With a unit
  of the semaphore available the call goes round for ever, and it does anything else
  exactly when some pass finds the thread suspended in \<^verbatim>\<open>acquire()\<close>.
\<close>

theorem worker_on_empty_queue:
  "(0 < quantum_processors s \<longrightarrow>
      (\<exists>s'. process_quantum_tasks p s = Returns s' \<and> task_queue s' = []))
   \<and> (task_queue s = [] \<longrightarrow> process_quantum_tasks p s = Returns s)
   \<and> (data_queue v = [] \<longrightarrow>
        data_handler_body v = Continue (emit (Sleep_ms 100) v)
        \<and> passes data_handler_body n v =
            Continue (v\<lparr>console := console v @ replicate n (Sleep_ms 100)\<rparr>)
        \<and> data_handler v = None)
   \<and> data_handler v =
       (case passes data_handler_body n v of
          Continue s' \<Rightarrow> data_handler s'
        | Break s' \<Rightarrow> Some (Returns s')
        | Stuck s' \<Rightarrow> Some (Blocks s'))
   \<and> passes data_handler_body n v \<noteq> Break v'
   \<and> data_handler v \<noteq> Some (Returns v')
   \<and> (0 < server_capacity v \<longrightarrow> data_handler v = None)
   \<and> (data_handler v \<noteq> None \<longleftrightarrow>
        (\<exists>k s'. passes data_handler_body k v = Stuck s' \<and> data_handler v = Some (Blocks s')))"
proof (intro conjI impI)
  show "\<exists>s'. process_quantum_tasks p s = Returns s' \<and> task_queue s' = []"
    if "0 < quantum_processors s" using that by (rule worker_returns)
  show "process_quantum_tasks p s = Returns s" if "task_queue s = []"
    using that by (simp add: process_quantum_tasks_body_def)
  show "data_handler_body v = Continue (emit (Sleep_ms 100) v)" if "data_queue v = []"
    using that by (simp add: data_handler_body_def)
  show "passes data_handler_body n v =
      Continue (v\<lparr>console := console v @ replicate n (Sleep_ms 100)\<rparr>)" if "data_queue v = []"
    using that by (rule passes_empty_queue)
  show "data_handler v = None" if "data_queue v = []"
    using that data_handler_blocked [of v] by (cases "data_handler v") auto
  show "data_handler v =
       (case passes data_handler_body n v of
          Continue s' \<Rightarrow> data_handler s'
        | Break s' \<Rightarrow> Some (Returns s')
        | Stuck s' \<Rightarrow> Some (Blocks s'))"
    by (rule data_handler_passes)
  show "passes data_handler_body n v \<noteq> Break v'" by (rule passes_not_Break)
  show "data_handler v \<noteq> Some (Returns v')" by (rule data_handler_never_returns)
  show "data_handler v = None" if "0 < server_capacity v"
    using that data_handler_blocked [of v] by (cases "data_handler v") auto
  show "data_handler v \<noteq> None \<longleftrightarrow>
        (\<exists>k s'. passes data_handler_body k v = Stuck s' \<and> data_handler v = Some (Blocks s'))"
    using data_handler_suspended [of v] by auto
qed

theorem worker_on_empty_queue_witness:
  "0 < quantum_processors (start\<lparr>task_queue := [task3]\<rparr>)
   \<and> process_quantum_tasks 0 (start\<lparr>task_queue := [task3]\<rparr>) =
        Returns (start\<lparr>trace := [Acquire, Started 0 task3, Sleep 1500, Release, Completed 0 3]\<rparr>)
   \<and> task_queue start = [] \<and> process_quantum_tasks 0 start = Returns start
   \<and> data_queue idle = []
   \<and> data_handler_body idle = Continue (idle\<lparr>console := [Sleep_ms 100]\<rparr>)
   \<and> passes data_handler_body (Suc (Suc (Suc 0))) idle =
        Continue (idle\<lparr>console := [Sleep_ms 100, Sleep_ms 100, Sleep_ms 100]\<rparr>)
   \<and> data_handler idle = None
   \<and> 0 < server_capacity (idle\<lparr>data_queue := [data1]\<rparr>)
   \<and> data_handler (idle\<lparr>data_queue := [data1]\<rparr>) = None
   \<and> passes data_handler_body (Suc 0) (idle\<lparr>data_queue := [data1], server_capacity := 0\<rparr>) =
        Stuck (idle\<lparr>server_capacity := 0\<rparr>)
   \<and> data_handler (idle\<lparr>data_queue := [data1], server_capacity := 0\<rparr>) =
        Some (Blocks (idle\<lparr>server_capacity := 0\<rparr>))"
proof -
  have h1: "0 < quantum_processors (start\<lparr>task_queue := [task3]\<rparr>)" by simp
  have h2: "task_queue start = []" by simp
  have h3: "data_queue idle = []" by simp
  have h4: "0 < server_capacity (idle\<lparr>data_queue := [data1]\<rparr>)" by simp
  have run: "process_quantum_tasks 0 (start\<lparr>task_queue := [task3]\<rparr>) =
        Returns (start\<lparr>trace := [Acquire, Started 0 task3, Sleep 1500, Release, Completed 0 3]\<rparr>)"
    by (simp add: process_quantum_tasks_body_def process_quantum_task_def pq_pop_def say_def
        Let_def)
  have stuck: "passes data_handler_body (Suc 0) (idle\<lparr>data_queue := [data1], server_capacity := 0\<rparr>) =
        Stuck (idle\<lparr>server_capacity := 0\<rparr>)"
    by (simp add: data_handler_body_def process_data_def acquire_def pq_pop_def)
  have a: "process_quantum_tasks 0 start = Returns start
    \<and> data_handler_body idle = Continue (emit (Sleep_ms 100) idle)
    \<and> passes data_handler_body (Suc (Suc (Suc 0))) idle =
        Continue (idle\<lparr>console := console idle @ replicate (Suc (Suc (Suc 0))) (Sleep_ms 100)\<rparr>)
    \<and> data_handler idle = None"
    using worker_on_empty_queue [of start 0 idle "Suc (Suc (Suc 0))"] h2 h3 by blast
  have b: "data_handler (idle\<lparr>data_queue := [data1]\<rparr>) = None"
    using worker_on_empty_queue [of start 0 "idle\<lparr>data_queue := [data1]\<rparr>" 0] h4 by blast
  have "data_handler (idle\<lparr>data_queue := [data1], server_capacity := 0\<rparr>) =
      (case passes data_handler_body (Suc 0) (idle\<lparr>data_queue := [data1], server_capacity := 0\<rparr>) of
         Continue s' \<Rightarrow> data_handler s'
       | Break s' \<Rightarrow> Some (Returns s')
       | Stuck s' \<Rightarrow> Some (Blocks s'))"
    using worker_on_empty_queue
      [of start 0 "idle\<lparr>data_queue := [data1], server_capacity := 0\<rparr>" "Suc 0"]
    by blast
  then have c: "data_handler (idle\<lparr>data_queue := [data1], server_capacity := 0\<rparr>) =
      Some (Blocks (idle\<lparr>server_capacity := 0\<rparr>))"
    by (simp only: stuck loop.case)
  have e1: "emit (Sleep_ms 100) idle = idle\<lparr>console := [Sleep_ms 100]\<rparr>"
    by (simp add: emit_def)
  have e2: "idle\<lparr>console := console idle @ replicate (Suc (Suc (Suc 0))) (Sleep_ms 100)\<rparr> =
      idle\<lparr>console := [Sleep_ms 100, Sleep_ms 100, Sleep_ms 100]\<rparr>"
    by simp
  from h1 h2 h3 h4 run stuck a [unfolded e1 e2] b c show ?thesis by blast
qed

section \<open>Admission at the stations\<close>

text \<open>
  Claim C5. A station leaves the queue as it was (the item is dropped) exactly when the
  load is above 80, the item is not critical and its priority value is above 3, or the
  emergency mode is on, the item is not critical and its priority value is above 2. In
  the first case it prints the overload line, in the second the emergency line; in every
  other case the item is pushed into the queue.
\<close>

theorem admission:
  "(data_queue (monitoring_station_body data gap s) = data_queue s
      \<longleftrightarrow> (current_load s > 80 \<and> \<not> MonitoringData.is_critical data \<and> MonitoringData.priority data > 3)
        \<or> (emergency_mode s \<and> \<not> MonitoringData.is_critical data \<and> MonitoringData.priority data > 2))
   \<and> (current_load s > 80 \<and> \<not> MonitoringData.is_critical data \<and> MonitoringData.priority data > 3 \<longrightarrow>
        monitoring_station_body data gap s =
          s\<lparr>console := console s @ [Dropped_overload (station_id data), Sleep_ms 500]\<rparr>)
   \<and> (\<not> (current_load s > 80 \<and> MonitoringData.priority data > 3)
        \<and> emergency_mode s \<and> \<not> MonitoringData.is_critical data \<and> MonitoringData.priority data > 2 \<longrightarrow>
        monitoring_station_body data gap s =
          s\<lparr>console := console s @ [Dropped_emergency (station_id data), Sleep_ms 200]\<rparr>)
   \<and> (\<not> ((current_load s > 80 \<and> \<not> MonitoringData.is_critical data \<and> MonitoringData.priority data > 3)
          \<or> (emergency_mode s \<and> \<not> MonitoringData.is_critical data \<and> MonitoringData.priority data > 2)) \<longrightarrow>
        monitoring_station_body data gap s =
          s\<lparr>data_queue := pq_push data (data_queue s),
            console := console s @ [Sent data, Sleep_ms (300 + gap)]\<rparr>)"
  by (auto simp: monitoring_station_body_def emit_def pq_push_def Let_def)

theorem admission_witness:
  "current_load (idle\<lparr>current_load := 100\<rparr>) > 80
   \<and> \<not> MonitoringData.is_critical data3 \<and> MonitoringData.priority data3 > 3
   \<and> monitoring_station_body data3 0 (idle\<lparr>current_load := 100\<rparr>) =
        idle\<lparr>current_load := 100, console := [Dropped_overload 3, Sleep_ms 500]\<rparr>
   \<and> emergency_mode (idle\<lparr>emergency_mode := True\<rparr>) \<and> MonitoringData.priority data3 > 2
   \<and> monitoring_station_body data3 0 (idle\<lparr>emergency_mode := True\<rparr>) =
        idle\<lparr>emergency_mode := True, console := [Dropped_emergency 3, Sleep_ms 200]\<rparr>
   \<and> monitoring_station_body data3 0 idle =
        idle\<lparr>data_queue := [data3], console := [Sent data3, Sleep_ms 300]\<rparr>
   \<and> monitoring_station_body data1 0 (idle\<lparr>current_load := 100, emergency_mode := True\<rparr>) =
        idle\<lparr>current_load := 100, emergency_mode := True, data_queue := [data1],
             console := [Sent data1, Sleep_ms 300]\<rparr>"
proof -
  have h1: "current_load (idle\<lparr>current_load := 100\<rparr>) > 80
    \<and> \<not> MonitoringData.is_critical data3 \<and> MonitoringData.priority data3 > 3" by simp
  have h2: "\<not> (current_load (idle\<lparr>emergency_mode := True\<rparr>) > 80 \<and> MonitoringData.priority data3 > 3)
    \<and> emergency_mode (idle\<lparr>emergency_mode := True\<rparr>)
    \<and> \<not> MonitoringData.is_critical data3 \<and> MonitoringData.priority data3 > 2" by simp
  have h3: "\<not> ((current_load idle > 80 \<and> \<not> MonitoringData.is_critical data3 \<and> MonitoringData.priority data3 > 3)
          \<or> (emergency_mode idle \<and> \<not> MonitoringData.is_critical data3 \<and> MonitoringData.priority data3 > 2))"
    by simp
  have h4: "MonitoringData.is_critical data1" by simp
  from admission [of data3 0 "idle\<lparr>current_load := 100\<rparr>"]
    admission [of data3 0 "idle\<lparr>emergency_mode := True\<rparr>"]
    admission [of data3 0 idle]
    admission [of data1 0 "idle\<lparr>current_load := 100, emergency_mode := True\<rparr>"]
    h1 h2 h3 h4
  show ?thesis by (simp add: pq_push_def)
qed

section \<open>The load monitor\<close>

text \<open>The sampled load is 80 or 100, and a successful first probe keeps its unit.\<close>

lemma load_monitor_probe_eq: "load_monitor_probe n s = s"
  by (induction n arbitrary: s) (auto simp: try_acquire_def release_def)

lemma load_monitor_sample_eq:
  "load_monitor_sample s =
     (if server_capacity s > 0 then (80, s\<lparr>server_capacity := server_capacity s - 1\<rparr>)
      else (100, s))"
  by (simp add: load_monitor_sample_def try_acquire_def load_monitor_probe_eq)

lemma try_acquire_handlers: "active_handlers (snd (try_acquire s)) = active_handlers s"
  by (simp add: try_acquire_def)

lemma probe_handlers: "active_handlers (load_monitor_probe n s) = active_handlers s"
  by (induction n arbitrary: s) (auto simp: try_acquire_def release_def)

lemma sample_handlers: "active_handlers (snd (load_monitor_sample s)) = active_handlers s"
  by (simp add: load_monitor_sample_def try_acquire_def probe_handlers Let_def)

lemma emergency_handlers: "active_handlers (load_monitor_emergency load s) = active_handlers s"
  by (simp add: load_monitor_emergency_def emit_def Let_def)

lemma adapt_handlers:
  "active_handlers (state_of (load_monitor_adapt load s)) =
     (if load > 80 \<and> active_handlers s < 10 then active_handlers s + 1
      else if load < 50 \<and> active_handlers s > 5 then active_handlers s - 1
      else active_handlers s)"
  by (simp add: load_monitor_adapt_def acquire_def emit_def release_def Let_def)

lemma body_handlers:
  "active_handlers (loop_state (load_monitor_body s)) =
     active_handlers (state_of (load_monitor_adapt (fst (load_monitor_sample s))
        ((snd (load_monitor_sample s))\<lparr>current_load := fst (load_monitor_sample s)\<rparr>)))"
  by (cases "load_monitor_adapt (fst (load_monitor_sample s))
        ((snd (load_monitor_sample s))\<lparr>current_load := fst (load_monitor_sample s)\<rparr>)")
     (simp_all add: load_monitor_body_def Let_def split_beta emit_def emergency_handlers)

text \<open>The counter \<^verbatim>\<open>active_handlers\<close> stays between 5 and 10, and no pass lowers it: the
  sampled load is never below 50.\<close>

lemma handlers_bounds:
  "5 \<le> active_handlers s \<and> active_handlers s \<le> 10 \<Longrightarrow>
   5 \<le> active_handlers (loop_state (load_monitor_body s))
   \<and> active_handlers (loop_state (load_monitor_body s)) \<le> 10"
  unfolding body_handlers adapt_handlers by (simp add: sample_handlers)

lemma handlers_never_lowered:
  "active_handlers s \<le> active_handlers (loop_state (load_monitor_body s))"
  unfolding body_handlers adapt_handlers by (simp add: load_monitor_sample_eq)

text \<open>A pass that finds a unit free takes it from the pool for good and adapts nothing.\<close>

lemma load_monitor_body_free:
  "0 < server_capacity s \<Longrightarrow>
   load_monitor_body s =
     Continue (emit (Sleep_ms 500)
       (load_monitor_emergency 80
          (s\<lparr>server_capacity := server_capacity s - 1, current_load := 80\<rparr>)))"
  by (simp add: load_monitor_body_def load_monitor_sample_eq load_monitor_adapt_def)

lemma pass_keeps_unit:
  "0 < server_capacity s \<Longrightarrow>
   server_capacity (loop_state (load_monitor_body s)) = server_capacity s - 1
   \<and> active_handlers (loop_state (load_monitor_body s)) = active_handlers s"
  by (simp add: load_monitor_body_free emit_def load_monitor_emergency_def Let_def)

text \<open>With no unit left and 10 handlers counted, a pass changes neither.\<close>

lemma pool_stays_empty:
  "server_capacity s = 0 \<and> active_handlers s = 10 \<Longrightarrow>
   server_capacity (loop_state (load_monitor_body s)) = 0
   \<and> active_handlers (loop_state (load_monitor_body s)) = 10"
  by (simp add: load_monitor_body_def load_monitor_sample_eq load_monitor_adapt_def emit_def
      load_monitor_emergency_def Let_def)

text \<open>
  Claim C8 says that the capacity of the pool stays between 5 and 10 at every step of the
  monitor, and goes down by one unit only when the load is below 50 and the capacity is
  above 5. The program breaks it. The first \<^verbatim>\<open>try_acquire()\<close> of the sampling keeps the
  unit it takes, whereas the probes of the loop that follows release theirs; and the load
  computed from it is 80 or 100, never below 50. From the globals as they are initialised,
  with no handler holding a unit, one pass of the monitor samples the load 80, adapts
  nothing and leaves 4 units in the pool. After 5 passes no unit is left while 5 handlers
  are counted, and after 15 passes, and after 16, no unit is left while 10 handlers are
  counted.
\<close>

theorem monitor_drains_pool:
  "load_monitor_body idle =
     Continue (idle\<lparr>server_capacity := 4, current_load := 80, console := [Sleep_ms 500]\<rparr>)
   \<and> server_capacity (loop_state (passes load_monitor_body 5 idle)) = 0
   \<and> active_handlers (loop_state (passes load_monitor_body 5 idle)) = 5
   \<and> current_load (loop_state (passes load_monitor_body 5 idle)) = 80
   \<and> server_capacity (loop_state (passes load_monitor_body 15 idle)) = 0
   \<and> active_handlers (loop_state (passes load_monitor_body 15 idle)) = 10
   \<and> server_capacity (loop_state (passes load_monitor_body 16 idle)) = 0
   \<and> active_handlers (loop_state (passes load_monitor_body 16 idle)) = 10"
  by code_simp

lemma emergency_run_snoc:
  "emergency_run (loads @ [load]) s = load_monitor_emergency load (emergency_run loads s)"
  by (simp add: emergency_run_def)

lemma breaches_snoc:
  "breaches (loads @ [load]) = (if load > 95 then Suc (breaches loads) else 0)"
  by (simp add: breaches_def)

lemma emergency_only:
  "emergency_mode (load_monitor_emergency load s) =
     (load > 95 \<and> (emergency_mode s \<or> 3 <s emergency_counter s + 1))
   \<and> emergency_counter (load_monitor_emergency load s) =
     (if load > 95 then emergency_counter s + 1 else 0)"
  by (auto simp: load_monitor_emergency_def emit_def Let_def)

lemma counter_crosses:
  "b \<le> 3 \<Longrightarrow> 3 <s (word_of_nat b + 1 :: 32 word) \<longleftrightarrow> b = 3"
proof -
  assume "b \<le> 3"
  then consider "b = 0" | "b = 1" | "b = 2" | "b = 3" by linarith
  then show ?thesis by cases (simp_all add: word_sless_alt)
qed

lemma emergency_run_counts:
  assumes "emergency_counter s = 0" "\<not> emergency_mode s"
  shows "emergency_counter (emergency_run loads s) = word_of_nat (breaches loads)
     \<and> emergency_mode (emergency_run loads s) = (3 < breaches loads)"
proof (induction loads rule: rev_induct)
  case Nil
  from assms show ?case by (simp add: emergency_run_def breaches_def)
next
  case (snoc load loads)
  let ?b = "breaches loads"
  from snoc have c: "emergency_counter (emergency_run loads s) = word_of_nat ?b"
    and m: "emergency_mode (emergency_run loads s) = (3 < ?b)" by simp_all
  show ?case
  proof (cases "load > 95")
    case False
    then show ?thesis
      by (simp add: emergency_run_snoc breaches_snoc emergency_only)
  next
    case True
    show ?thesis
    proof (cases "?b \<le> 3")
      case small: True
      with True c m counter_crosses [of ?b] show ?thesis
        by (auto simp: emergency_run_snoc breaches_snoc emergency_only)
    next
      case False
      with True c m show ?thesis
        by (simp add: emergency_run_snoc breaches_snoc emergency_only)
    qed
  qed
qed

lemma sample_emergency:
  "emergency_mode (snd (load_monitor_sample s)) = emergency_mode s
   \<and> emergency_counter (snd (load_monitor_sample s)) = emergency_counter s"
proof -
  have "emergency_mode (load_monitor_probe n v) = emergency_mode v
     \<and> emergency_counter (load_monitor_probe n v) = emergency_counter v" for n v
    by (induction n arbitrary: v) (auto simp: try_acquire_def release_def)
  then show ?thesis
    by (simp add: load_monitor_sample_def try_acquire_def Let_def)
qed

lemma adapt_emergency:
  "emergency_mode (state_of (load_monitor_adapt load s)) = emergency_mode s
   \<and> emergency_counter (state_of (load_monitor_adapt load s)) = emergency_counter s"
  by (simp add: load_monitor_adapt_def acquire_def emit_def release_def Let_def)

lemma body_emergency:
  assumes "load_monitor_body s = Continue s'"
  shows "emergency_mode s' = emergency_mode (load_monitor_emergency (fst (load_monitor_sample s)) s)
     \<and> emergency_counter s' = emergency_counter (load_monitor_emergency (fst (load_monitor_sample s)) s)"
proof -
  let ?load = "fst (load_monitor_sample s)"
  let ?s2 = "(snd (load_monitor_sample s))\<lparr>current_load := ?load\<rparr>"
  from assms obtain s3 where a: "load_monitor_adapt ?load ?s2 = Returns s3"
    and s': "s' = emit (Sleep_ms 500) (load_monitor_emergency ?load s3)"
    by (auto simp: load_monitor_body_def Let_def split_beta split: thread.splits)
  from adapt_emergency [of ?load ?s2] a sample_emergency [of s]
  have "emergency_mode s3 = emergency_mode s" "emergency_counter s3 = emergency_counter s"
    by simp_all
  then show ?thesis
    unfolding s' by (simp add: emit_def emergency_only)
qed

text \<open>
  Claim C6. Starting with the counter at 0 and the emergency mode off, after any history
  of samples the emergency mode is on exactly when the history ends with more than 3
  consecutive samples above 95: it comes on at the 4th such sample in a row and not
  before. One sample of at most 95 sets the counter to 0 and turns the emergency mode
  off. The mode comes on only at a sample above 95 that takes the counter above 3. A pass
  of the monitor's loop changes the mode and the counter as the emergency check does.
\<close>

theorem emergency_hysteresis:
  "(emergency_counter s = 0 \<and> \<not> emergency_mode s \<longrightarrow>
      emergency_mode (emergency_run loads s) = (3 < breaches loads)
      \<and> emergency_counter (emergency_run loads s) = word_of_nat (breaches loads))
   \<and> (load \<le> 95 \<longrightarrow>
        emergency_counter (load_monitor_emergency load s) = 0
        \<and> \<not> emergency_mode (load_monitor_emergency load s))
   \<and> (\<not> emergency_mode s \<and> emergency_mode (load_monitor_emergency load s) \<longrightarrow>
        load > 95 \<and> 3 <s emergency_counter s + 1)
   \<and> (load_monitor_body s = Continue s' \<longrightarrow>
        emergency_mode s' = emergency_mode (load_monitor_emergency (fst (load_monitor_sample s)) s)
        \<and> emergency_counter s'
            = emergency_counter (load_monitor_emergency (fst (load_monitor_sample s)) s))"
  using emergency_run_counts [of s loads] emergency_only [of load s] body_emergency [of s s']
  by auto

theorem emergency_hysteresis_witness:
  "emergency_counter idle = 0 \<and> \<not> emergency_mode idle
   \<and> \<not> emergency_mode (emergency_run [100, 100, 100] idle)
   \<and> emergency_mode (emergency_run [100, 100, 100, 100] idle)
   \<and> emergency_counter (emergency_run [100, 100, 100, 100] idle) = 4
   \<and> \<not> emergency_mode (emergency_run [100, 100, 100, 100, 80] idle)
   \<and> emergency_counter (emergency_run [100, 100, 100, 100, 80] idle) = 0
   \<and> \<not> emergency_mode (emergency_run [100, 100, 80, 100, 100] idle)"
proof -
  have h: "emergency_counter idle = 0 \<and> \<not> emergency_mode idle" by simp
  from emergency_hysteresis [of idle "[100, 100, 100]"]
    emergency_hysteresis [of idle "[100, 100, 100, 100]"]
    emergency_hysteresis [of idle "[100, 100, 100, 100, 80]"]
    emergency_hysteresis [of idle "[100, 100, 80, 100, 100]"] h
  show ?thesis by (simp add: breaches_def)
qed

end
